theory Spec2Isabelle
  imports Main "HOL-Library.AList" "HOL-Library.List_Lexorder"
begin

section \<open>Python strings\<close>

text \<open>
  A Python \<open>str\<close> is a sequence of Unicode code points.  The status pattern of
  \<open>validate_fdl_completion\<close> contains code points far beyond one byte, so a string is
  modelled as a list of code points; \<open>lit\<close> turns an ASCII literal into one.
\<close>

type_synonym codepoint = nat
type_synonym str = "codepoint list"

definition lit :: "string \<Rightarrow> str" where
  "lit s = map of_char s"

text \<open>\<open>str.isspace\<close> for one character; it is also the class \<open>\s\<close> of \<open>re\<close>.\<close>

definition isspace :: "codepoint \<Rightarrow> bool" where
  "isspace c \<longleftrightarrow>
     (0x09 \<le> c \<and> c \<le> 0x0D) \<or> (0x1C \<le> c \<and> c \<le> 0x20) \<or> c = 0x85 \<or> c = 0xA0 \<or>
     c = 0x1680 \<or> (0x2000 \<le> c \<and> c \<le> 0x200A) \<or> c = 0x2028 \<or> c = 0x2029 \<or>
     c = 0x202F \<or> c = 0x205F \<or> c = 0x3000"

text \<open>The line boundaries of \<open>str.splitlines\<close>.\<close>

definition is_linebreak :: "codepoint \<Rightarrow> bool" where
  "is_linebreak c \<longleftrightarrow>
     (0x0A \<le> c \<and> c \<le> 0x0D) \<or> (0x1C \<le> c \<and> c \<le> 0x1E) \<or> c = 0x85 \<or>
     c = 0x2028 \<or> c = 0x2029"

text \<open>
  \<open>str.splitlines()\<close>: the text is cut at every line boundary, \<open>\r\n\<close> counting as
  one; the boundaries are dropped, and a boundary at the very end opens no further line.
  The first argument is the line read so far.
\<close>

fun splitlines_from :: "str \<Rightarrow> str \<Rightarrow> str list" where
  "splitlines_from cur [] = (if cur = [] then [] else [cur])"
| "splitlines_from cur (c # cs) =
     (if c = 0x0D then
        (case cs of
           [] \<Rightarrow> [cur]
         | d # ds \<Rightarrow> if d = 0x0A then cur # splitlines_from [] ds
                    else cur # splitlines_from [] (d # ds))
      else if is_linebreak c then cur # splitlines_from [] cs
      else splitlines_from (cur @ [c]) cs)"

definition splitlines :: "str \<Rightarrow> str list" where
  "splitlines s = splitlines_from [] s"

text \<open>\<open>s.split('\n')\<close>: always at least one piece.\<close>

fun split_nl_from :: "str \<Rightarrow> str \<Rightarrow> str list" where
  "split_nl_from cur [] = [cur]"
| "split_nl_from cur (c # cs) =
     (if c = 0x0A then cur # split_nl_from [] cs else split_nl_from (cur @ [c]) cs)"

definition split_nl :: "str \<Rightarrow> str list" where
  "split_nl s = split_nl_from [] s"

definition strip :: "str \<Rightarrow> str" where
  "strip s = rev (dropWhile isspace (rev (dropWhile isspace s)))"

definition startswith :: "str \<Rightarrow> str \<Rightarrow> bool" where
  "startswith s p \<longleftrightarrow> take (length p) s = p"



text \<open>Truth value of a string: the empty string is falsy.\<close>

definition truthy :: "str \<Rightarrow> bool" where
  "truthy s \<longleftrightarrow> s \<noteq> []"

section \<open>Regular expressions\<close>

text \<open>
  The patterns written out in the sources use literals, character classes, greedy
  repetition of a class, sequence, ordered alternation, capturing groups and the anchors
  \<open>^\<close> and \<open>$\<close>.  They are embedded as values of \<open>re\<close> and run by a backtracking
  matcher that returns the successes in the order in which Python's engine tries them:
  longest repetition first, alternatives left to right.  A cursor is the text read so
  far (reversed) and the text still to read.  Groups are numbered by their opening
  parenthesis: a group reserves its slot when it is entered and fills it when it is left.
  \<open>Bos\<close> is \<open>^\<close>, \<open>Bol\<close> is \<open>^\<close> under \<open>re.MULTILINE\<close>, \<open>Eos\<close> is \<open>$\<close>.
\<close>

datatype re =
    Eps
  | Lit str
  | Cls "codepoint \<Rightarrow> bool"
  | Star "codepoint \<Rightarrow> bool"
  | Plus "codepoint \<Rightarrow> bool"
  | Then re re
  | Or re re
  | Grp re
  | Bos
  | Bol
  | Eos

type_synonym cursor = "str \<times> str"
type_synonym mstate = "str list \<times> cursor"

definition seq :: "re list \<Rightarrow> re" where
  "seq rs = foldr Then rs Eps"

definition alt :: "re list \<Rightarrow> re" where
  "alt rs = foldr Or rs (Cls (\<lambda>_. False))"

text \<open>All ways of reading zero or more characters of a class, the longest first.\<close>

fun star_steps :: "(codepoint \<Rightarrow> bool) \<Rightarrow> str \<Rightarrow> str \<Rightarrow> cursor list" where
  "star_steps p l [] = [(l, [])]"
| "star_steps p l (c # cs) =
     (if p c then star_steps p (c # l) cs @ [(l, c # cs)] else [(l, c # cs)])"

fun rmatch :: "re \<Rightarrow> mstate \<Rightarrow> mstate list" where
  "rmatch Eps st = [st]"
| "rmatch (Lit t) (caps, l, r) =
     (if startswith r t then [(caps, rev t @ l, drop (length t) r)] else [])"
| "rmatch (Cls p) (caps, l, r) =
     (case r of [] \<Rightarrow> [] | c # cs \<Rightarrow> if p c then [(caps, c # l, cs)] else [])"
| "rmatch (Star p) (caps, l, r) = map (Pair caps) (star_steps p l r)"
| "rmatch (Plus p) (caps, l, r) =
     (case r of [] \<Rightarrow> []
      | c # cs \<Rightarrow> if p c then map (Pair caps) (star_steps p (c # l) cs) else [])"
| "rmatch (Then a b) st = concat (map (rmatch b) (rmatch a st))"
| "rmatch (Or a b) st = rmatch a st @ rmatch b st"
| "rmatch (Grp a) (caps, l, r) =
     map (\<lambda>(caps', l', r').
            (caps'[length caps := rev (take (length l' - length l) l')], l', r'))
       (rmatch a (caps @ [[]], l, r))"
| "rmatch Bos (caps, l, r) = (if l = [] then [(caps, l, r)] else [])"
| "rmatch Bol (caps, l, r) = (if l = [] \<or> hd l = 0x0A then [(caps, l, r)] else [])"
| "rmatch Eos (caps, l, r) = (if r = [] \<or> r = [0x0A] then [(caps, l, r)] else [])"

text \<open>
  \<open>re.match\<close>: the first success at the start of the text.  \<open>re.search\<close>: the first
  success at the leftmost position that has one; \<open>search_from\<close> returns the groups, the
  text to the left of the match and the cursor at its end.
\<close>

definition re_match :: "re \<Rightarrow> str \<Rightarrow> str list option" where
  "re_match r s = (case rmatch r ([], [], s) of [] \<Rightarrow> None | (caps, _) # _ \<Rightarrow> Some caps)"

fun search_from :: "re \<Rightarrow> str \<Rightarrow> str \<Rightarrow> (str list \<times> str \<times> cursor) option" where
  "search_from r l [] =
     (case rmatch r ([], l, []) of [] \<Rightarrow> None | (caps, cur) # _ \<Rightarrow> Some (caps, l, cur))"
| "search_from r l (c # cs) =
     (case rmatch r ([], l, c # cs) of
        [] \<Rightarrow> search_from r (c # l) cs
      | (caps, cur) # _ \<Rightarrow> Some (caps, l, cur))"

definition re_search :: "re \<Rightarrow> str \<Rightarrow> str list option" where
  "re_search r s = map_option fst (search_from r [] s)"

text \<open>
  \<open>re.finditer\<close>: the matches from left to right, each search starting where the last
  match ended, one character further after an empty match.  Each match is given as its
  text (\<open>group(0)\<close>) and its groups.
\<close>

lemma star_steps_cursor:
  "(l', r') \<in> set (star_steps p l r) \<Longrightarrow> length l' + length r' = length l + length r \<and> length l \<le> length l'"
  by (induction p l r rule: star_steps.induct) (auto split: if_splits)

lemma rmatch_cursor:
  "(caps', l', r') \<in> set (rmatch r (caps, l, s)) \<Longrightarrow>
     length l' + length r' = length l + length s \<and> length l \<le> length l'"
proof (induction r arbitrary: caps l s caps' l' r')
  case (Lit t)
  then have "take (length t) s = t" "l' = rev t @ l" "r' = drop (length t) s"
    by (auto simp: startswith_def split: if_splits)
  moreover from this have "length (take (length t) s) = length t"
    by simp
  then have "length t \<le> length s"
    by simp
  ultimately show ?case by simp
next
  case (Then a b)
  from Then.prems obtain c1 l1 r1 where
    a: "(c1, l1, r1) \<in> set (rmatch a (caps, l, s))" and b: "(caps', l', r') \<in> set (rmatch b (c1, l1, r1))"
    by auto
  from Then.IH(1)[OF a] Then.IH(2)[OF b] show ?case by simp
next
  case (Or a b)
  then show ?case by auto
next
  case (Grp a)
  then show ?case by auto
next
  case (Star p)
  then show ?case by (auto dest!: star_steps_cursor)
next
  case (Plus p)
  then show ?case by (auto split: if_splits list.splits dest!: star_steps_cursor)
next
  case (Cls p)
  then show ?case by (auto split: if_splits list.splits)
qed (auto split: if_splits)

lemma search_from_cursor:
  "search_from r l s = Some (caps, l0, l', r') \<Longrightarrow>
     length l' + length r' = length l + length s \<and> length l \<le> length l0 \<and> length l0 \<le> length l'"
proof (induction s arbitrary: l)
  case Nil
  then have "(caps, l', r') \<in> set (rmatch r ([], l, []))" and "l0 = l"
    by (auto split: list.splits)
  with rmatch_cursor[of caps l' r' r "[]" l "[]"] show ?case by simp
next
  case (Cons c cs)
  show ?case
  proof (cases "rmatch r ([], l, c # cs)")
    case Nil
    with Cons.prems have "search_from r (c # l) cs = Some (caps, l0, l', r')" by simp
    from Cons.IH[OF this] show ?thesis by simp
  next
    case (Cons x xs)
    with Cons.prems have "(caps, l', r') \<in> set (rmatch r ([], l, c # cs))" and "l0 = l"
      by (auto split: prod.splits)
    with rmatch_cursor[of caps l' r' r "[]" l "c # cs"] show ?thesis by simp
  qed
qed

function finditer_from :: "re \<Rightarrow> str \<Rightarrow> str \<Rightarrow> (str \<times> str list) list" where
  "finditer_from r l s =
     (case search_from r l s of
        None \<Rightarrow> []
      | Some (caps, l0, l', r') \<Rightarrow>
          (rev (take (length l' - length l0) l'), caps) #
          (if length l0 < length l' then finditer_from r l' r'
           else (case r' of [] \<Rightarrow> [] | c # cs \<Rightarrow> finditer_from r (c # l') cs)))"
  by pat_completeness auto

termination finditer_from
proof (relation "measure (\<lambda>(r, l, s). length s)", goal_cases)
  case 1
  show ?case by simp
next
  case (2 r l s x2 caps y l0 z l' r')
  then show ?case using search_from_cursor[of r l s caps l0 l' r'] by auto
next
  case (3 r l s x2 caps y l0 z l' r' c cs)
  then show ?case using search_from_cursor[of r l s caps l0 l' r'] by auto
qed

definition re_finditer :: "re \<Rightarrow> str \<Rightarrow> (str \<times> str list) list" where
  "re_finditer r s = finditer_from r [] s"

text \<open>\<open>re.findall\<close> for a pattern with at most one group: the group if there is one,
  the whole match otherwise.\<close>

definition re_findall :: "re \<Rightarrow> str \<Rightarrow> str list" where
  "re_findall r s =
     map (\<lambda>(whole, caps). case caps of [] \<Rightarrow> whole | g # _ \<Rightarrow> g) (re_finditer r s)"

text \<open>The character class \<open>[a-z0-9-]\<close>.\<close>

definition idc :: "codepoint \<Rightarrow> bool" where
  "idc c \<longleftrightarrow> (0x61 \<le> c \<and> c \<le> 0x7A) \<or> (0x30 \<le> c \<and> c \<le> 0x39) \<or> c = 0x2D"

section \<open>What the sources import but do not define\<close>

text \<open>
  A compiled pattern of the module \<open>constants\<close>, which is not among the sources, is taken
  as it is used: by what its methods \<open>match\<close>, \<open>search\<close> (the groups of the match found,
  if any) and \<open>findall\<close> return.
\<close>

record pattern =
  p_match :: "str \<Rightarrow> str list option"
  p_search :: "str \<Rightarrow> str list option"
  p_findall :: "str \<Rightarrow> str list"

record constants =
  FDL_SCOPE_ID_RE :: pattern
  FDL_STEP_LINE_RE :: pattern
  PLACEHOLDER_RE :: pattern
  HEADING_ID_RE :: pattern
  ACTOR_ID_RE :: pattern
  CAPABILITY_ID_RE :: pattern
  USECASE_ID_RE :: pattern
  REQ_ID_RE :: pattern
  PRINCIPLE_ID_RE :: pattern
  ADR_HEADING_RE :: pattern
  ADR_DATE_RE :: pattern
  ADR_STATUS_RE :: pattern
  ADR_ID_RE :: pattern
  ADR_NUM_RE :: pattern

text \<open>
  Python's own tables: the class \<open>\d\<close> of \<open>re\<close> is the Unicode category Nd of the
  running interpreter, and \<open>int(s)\<close> parses a string or raises \<open>ValueError\<close> (\<open>None\<close>).
\<close>

record builtins =
  decimal :: "codepoint \<Rightarrow> bool"
  int_of_str :: "str \<Rightarrow> int option"

datatype py_error = KeyError | IndexError | NameError | ValueError

text \<open>\<open>m.group(1)\<close>.\<close>

definition group1 :: "str list \<Rightarrow> str" where
  "group1 caps = (case caps of [] \<Rightarrow> [] | g # _ \<Rightarrow> g)"

section \<open>The scoped-instruction extractor (\<open>validation/fdl.py\<close>)\<close>

record scope_entry =
  instructions :: "str list"
  completed :: "str list"

text \<open>A \<open>dict\<close> keeps its keys in insertion order: an association list.\<close>

type_synonym fdl = "(str \<times> scope_entry) list"

record fdl_state =
  result :: fdl
  current_scope_id :: "str option"

text \<open>\<open>`(fdd-[a-z0-9-]+)`\<close>\<close>

definition re_scope_id :: re where
  "re_scope_id = seq [Lit (lit ''`''), Grp (seq [Lit (lit ''fdd-''), Plus idc]), Lit (lit ''`'')]"

text \<open>\<open>^\s*\d+\.\s*\[x\]\<close> under \<open>re.I\<close>: the letter matches in either case.\<close>

definition re_step_checked :: "builtins \<Rightarrow> re" where
  "re_step_checked U =
     seq [Bos, Star isspace, Plus (decimal U), Lit (lit ''.''), Star isspace,
          Lit (lit ''[''), Cls (\<lambda>c. c = 0x78 \<or> c = 0x58), Lit (lit '']'')]"

text \<open>\<open>`(inst-[a-z0-9-]+)`\s*$\<close>\<close>

definition re_inst_id :: re where
  "re_inst_id =
     seq [Lit (lit ''`''), Grp (seq [Lit (lit ''inst-''), Plus idc]), Lit (lit ''`''),
          Star isspace, Eos]"

text \<open>First \<open>if\<close> of the loop body: a scope declaration line sets the current scope.\<close>

definition set_scope :: "constants \<Rightarrow> fdl_state \<Rightarrow> str \<Rightarrow> fdl_state" where
  "set_scope K st line =
     (if p_match (FDL_SCOPE_ID_RE K) line \<noteq> None then
        (case re_search re_scope_id line of
           None \<Rightarrow> st
         | Some caps \<Rightarrow>
             let sid = group1 caps in
             \<lparr>result = (if sid \<in> fst ` set (result st) then result st
                        else result st @ [(sid, \<lparr>instructions = [], completed = []\<rparr>)]),
              current_scope_id = Some sid\<rparr>)
      else st)"

text \<open>\<open>result[sid][...].append(inst_id)\<close>; a missing key raises.\<close>

definition append_to :: "(scope_entry \<Rightarrow> scope_entry) \<Rightarrow> str \<Rightarrow> fdl \<Rightarrow> py_error + fdl" where
  "append_to f sid res =
     (case map_of res sid of
        None \<Rightarrow> Inl KeyError
      | Some e \<Rightarrow> Inr (AList.update sid (f e) res))"

text \<open>Second \<open>if\<close> of the loop body: a checked step line under the current scope.\<close>

definition add_step :: "builtins \<Rightarrow> constants \<Rightarrow> fdl_state \<Rightarrow> str \<Rightarrow> py_error + fdl_state" where
  "add_step U K st line =
     (case current_scope_id st of
        None \<Rightarrow> Inr st
      | Some sid \<Rightarrow>
          if truthy sid \<and> p_match (FDL_STEP_LINE_RE K) line \<noteq> None then
            if re_match (re_step_checked U) line \<noteq> None then
              (case re_search re_inst_id (strip line) of
                 None \<Rightarrow> Inr st
               | Some caps \<Rightarrow>
                   let inst_id = group1 caps in
                   (case append_to (\<lambda>e. e\<lparr>instructions := instructions e @ [inst_id]\<rparr>)
                           sid (result st) of
                      Inl err \<Rightarrow> Inl err
                    | Inr res1 \<Rightarrow>
                        (case append_to (\<lambda>e. e\<lparr>completed := completed e @ [inst_id]\<rparr>)
                                sid res1 of
                           Inl err \<Rightarrow> Inl err
                         | Inr res2 \<Rightarrow> Inr (st\<lparr>result := res2\<rparr>))))
            else Inr st
          else Inr st)"

fun fdl_lines :: "builtins \<Rightarrow> constants \<Rightarrow> fdl_state \<Rightarrow> str list \<Rightarrow> py_error + fdl_state" where
  "fdl_lines U K st [] = Inr st"
| "fdl_lines U K st (line # rest) =
     (case add_step U K (set_scope K st line) line of
        Inl err \<Rightarrow> Inl err
      | Inr st' \<Rightarrow> fdl_lines U K st' rest)"

text \<open>The loop of \<open>extract_fdl_instructions\<close> over lines already split.\<close>

definition extract_lines :: "builtins \<Rightarrow> constants \<Rightarrow> str list \<Rightarrow> py_error + fdl" where
  "extract_lines U K ls =
     (case fdl_lines U K \<lparr>result = [], current_scope_id = None\<rparr> ls of
        Inl err \<Rightarrow> Inl err
      | Inr st \<Rightarrow> Inr (result st))"

definition extract_fdl_instructions :: "builtins \<Rightarrow> constants \<Rightarrow> str \<Rightarrow> py_error + fdl" where
  "extract_fdl_instructions U K text = extract_lines U K (splitlines text)"

subsection \<open>The extractor's contract in the words of the spec\<close>

text \<open>
  The spec (4.8) describes the extractor by the lines of the document: the current scope
  is the most recently seen scope-declaration line, and every step line under it that
  is marked complete contributes its trailing instruction identifier.  The definitions
  below say this by position in the list of lines, without the loop's state:
  \<open>declares_scope\<close> is the scope a line declares, \<open>checked_step\<close> the instruction a
  checked step line ends in, \<open>scope_at K ls i\<close> the scope in force at line \<open>i\<close>, and
  \<open>steps_under U K S ls\<close> the instructions of the checked step lines under \<open>S\<close>, in the
  order of the document.
\<close>

definition declares_scope :: "constants \<Rightarrow> str \<Rightarrow> str option" where
  "declares_scope K line =
     (if p_match (FDL_SCOPE_ID_RE K) line \<noteq> None
      then map_option group1 (re_search re_scope_id line) else None)"

definition checked_step :: "builtins \<Rightarrow> constants \<Rightarrow> str \<Rightarrow> str option" where
  "checked_step U K line =
     (if p_match (FDL_STEP_LINE_RE K) line \<noteq> None \<and> re_match (re_step_checked U) line \<noteq> None
      then map_option group1 (re_search re_inst_id (strip line)) else None)"

text \<open>Both appends of the loop body at once.\<close>

definition push :: "str \<Rightarrow> scope_entry \<Rightarrow> scope_entry" where
  "push i e = e\<lparr>instructions := instructions e @ [i], completed := completed e @ [i]\<rparr>"

text \<open>The state kept by the loop: the current scope has an entry, keys are distinct.\<close>

definition fdl_inv :: "fdl_state \<Rightarrow> bool" where
  "fdl_inv st \<longleftrightarrow>
     distinct (map fst (result st)) \<and>
     (case current_scope_id st of None \<Rightarrow> True
      | Some sid \<Rightarrow> truthy sid \<and> sid \<in> fst ` set (result st))"

definition declared :: "constants \<Rightarrow> str list \<Rightarrow> str list" where
  "declared K ls = List.map_filter (declares_scope K) ls"

definition last_scope :: "constants \<Rightarrow> str list \<Rightarrow> str option" where
  "last_scope K ls = (if declared K ls = [] then None else Some (last (declared K ls)))"

definition scope_at :: "constants \<Rightarrow> str list \<Rightarrow> nat \<Rightarrow> str option" where
  "scope_at K ls i = last_scope K (take (Suc i) ls)"

definition steps_under :: "builtins \<Rightarrow> constants \<Rightarrow> str \<Rightarrow> str list \<Rightarrow> str list" where
  "steps_under U K S ls =
     List.map_filter
       (\<lambda>i. if scope_at K ls i = Some S then checked_step U K (ls ! i) else None)
       [0..<length ls]"

text \<open>The state before the first line.\<close>

definition fdl_init :: fdl_state where
  "fdl_init = \<lparr>result = [], current_scope_id = None\<rparr>"

section \<open>Validation issues and results\<close>

text \<open>
  The validators report issues as dictionaries with string keys whose values are
  strings, lists of strings, integers or lists of dictionaries.  A dictionary literal
  of the source is written as the association list of its items, in the source's order.
\<close>

datatype pyval =
    VStr str
  | VStrs "str list"
  | VInt int
  | VDicts "(str \<times> pyval) list list"

type_synonym pydict = "(str \<times> pyval) list"

section \<open>The placeholder scanner (\<open>utils/text.py\<close>)\<close>

text \<open>
  The loop of \<open>find_placeholders\<close> over \<open>enumerate(lines, start=1)\<close>: \<open>idx\<close> is the number
  of the line at hand, \<open>hits\<close> the list built so far.
\<close>

fun find_placeholders_loop :: "constants \<Rightarrow> nat \<Rightarrow> pydict list \<Rightarrow> str list \<Rightarrow> pydict list" where
  "find_placeholders_loop K idx hits [] = hits"
| "find_placeholders_loop K idx hits (line # rest) =
     find_placeholders_loop K (idx + 1)
       (if p_search (PLACEHOLDER_RE K) line \<noteq> None
        then hits @ [[(lit ''line'', VInt (int idx)), (lit ''text'', VStr line)]]
        else hits)
       rest"

definition find_placeholders :: "constants \<Rightarrow> str \<Rightarrow> pydict list" where
  "find_placeholders K artifact_text = find_placeholders_loop K 1 [] (splitlines artifact_text)"

section \<open>Section structure (\<open>utils/helpers.py\<close>, \<open>validation/artifacts/common.py\<close>)\<close>

text \<open>The loop of \<open>find_present_section_ids\<close>; \<open>present\<close> is the list built so far.\<close>

fun find_present_loop :: "constants \<Rightarrow> str list \<Rightarrow> str list \<Rightarrow> str list" where
  "find_present_loop K present [] = present"
| "find_present_loop K present (line # rest) =
     find_present_loop K
       (case p_match (HEADING_ID_RE K) (strip line) of
          None \<Rightarrow> present
        | Some caps \<Rightarrow> present @ [group1 caps])
       rest"

definition find_present_section_ids :: "constants \<Rightarrow> str \<Rightarrow> str list" where
  "find_present_section_ids K artifact_text = find_present_loop K [] (splitlines artifact_text)"

text \<open>\<open>counts[sid] = counts.get(sid, 0) + 1\<close> for every section id seen.\<close>

definition count_sids :: "str list \<Rightarrow> (str \<times> nat) list" where
  "count_sids present_ids_list =
     foldl (\<lambda>counts sid.
              AList.update sid ((case map_of counts sid of None \<Rightarrow> 0 | Some c \<Rightarrow> c) + 1) counts)
       [] present_ids_list"

record generic_result =
  required_section_count :: nat
  missing_sections :: "pydict list"
  placeholder_hits :: "pydict list"
  status :: str
  errors :: "pydict list"

text \<open>
  \<open>validate_generic_sections\<close>.  \<open>parse_required_sections\<close> is not among the sources:
  the dictionary it returns for \<open>requirements_path\<close> is the argument \<open>required_sections\<close>,
  an association list in the order of the dictionary's keys.
\<close>

definition validate_generic_sections ::
    "constants \<Rightarrow> (str \<times> str) list \<Rightarrow> str \<Rightarrow> str \<Rightarrow> generic_result" where
  "validate_generic_sections K required_sections artifact_text requirements_path =
     (if required_sections = [] then
        \<lparr>required_section_count = 0,
         missing_sections = [],
         placeholder_hits = find_placeholders K artifact_text,
         status = lit ''FAIL'',
         errors =
           [[(lit ''type'', VStr (lit ''requirements'')),
             (lit ''message'',
              VStr (lit ''Could not parse required sections from requirements file (expected headings like ''
                    @ [0x27] @ lit ''### Section X: ...'' @ [0x27] @ lit '')'')),
             (lit ''requirements'', VStr requirements_path)]]\<rparr>
      else
        let present_ids_list = find_present_section_ids K artifact_text;
            present_ids = set present_ids_list;
            missing =
              [[(lit ''id'', VStr section_id), (lit ''title'', VStr title)].
                 (section_id, title) \<leftarrow> required_sections, section_id \<notin> present_ids];
            counts = count_sids present_ids_list;
            dup_sids = sort [sid. (sid, c) \<leftarrow> counts, c > 1];
            errors1 =
              (if dup_sids \<noteq> [] then
                 [[(lit ''type'', VStr (lit ''structure'')),
                   (lit ''message'', VStr (lit ''Duplicate section ids in artifact'')),
                   (lit ''ids'', VStrs dup_sids)]]
               else []);
            required_order = map fst required_sections;
            present_required_in_order =
              [sid \<leftarrow> present_ids_list. sid \<in> set required_order];
            errors2 =
              errors1 @
              (if present_required_in_order \<noteq> required_order then
                 [[(lit ''type'', VStr (lit ''structure'')),
                   (lit ''message'', VStr (lit ''Sections are not in required order'')),
                   (lit ''required_order'', VStrs required_order),
                   (lit ''found_order'', VStrs present_required_in_order)]]
               else []);
            placeholders = find_placeholders K artifact_text;
            passed = (length missing = 0 \<and> length placeholders = 0 \<and> length errors2 = 0)
        in \<lparr>required_section_count = length required_sections,
            missing_sections = missing,
            placeholder_hits = placeholders,
            status = (if passed then lit ''PASS'' else lit ''FAIL''),
            errors = errors2\<rparr>)"

text \<open>The order-mismatch errors of a result, and the observed order the check compares.\<close>

definition is_order_error :: "pydict \<Rightarrow> bool" where
  "is_order_error e \<longleftrightarrow>
     map_of e (lit ''message'') = Some (VStr (lit ''Sections are not in required order''))"

definition observed_required :: "constants \<Rightarrow> (str \<times> str) list \<Rightarrow> str \<Rightarrow> str list" where
  "observed_required K required_sections artifact_text =
     filter (\<lambda>sid. sid \<in> fst ` set required_sections) (find_present_section_ids K artifact_text)"

section \<open>The code-marker scanner (\<open>validation/fdl.py\<close>)\<close>

record tag_info =
  has_begin :: bool
  has_end :: bool
  complete :: bool
  scopes :: "str list"

type_synonym inst_tags = "(str \<times> tag_info) list"

text \<open>
  What the scan reads of the file system under the project root: a regular file with
  its name and its decoded text (\<open>None\<close>: \<open>read_text\<close> raises), a directory with its name
  and its entries in the order of \<open>iterdir\<close> (\<open>None\<close>: \<open>iterdir\<close> raises), or an entry that
  is neither.
\<close>

datatype fsnode =
    File str "str option"
  | Dir str "fsnode list option"
  | Other str

definition code_extensions :: "str list" where
  "code_extensions =
     [lit ''.py'', lit ''.rs'', lit ''.ts'', lit ''.tsx'', lit ''.js'', lit ''.jsx'', lit ''.go'',
      lit ''.java'', lit ''.cs'', lit ''.sql'', lit ''.md'']"

definition skip_dirs :: "str list" where
  "skip_dirs =
     [lit ''.git'', lit ''node_modules'', lit ''venv'', lit ''__pycache__'', lit ''.pytest_cache'',
      lit ''target'', lit ''build'', lit ''dist'', lit ''tests'', lit ''examples'']"

text \<open>\<open>Path.suffix\<close>: the name from its last dot on, unless that dot is the first or the
  last character of the name.\<close>

definition suffix :: "str \<Rightarrow> str" where
  "suffix name =
     (let ext = rev (takeWhile (\<lambda>c. c \<noteq> 0x2E) (rev name)) in
      if length ext < length name \<and> ext \<noteq> [] \<and> length ext + 1 < length name
      then [0x2E] @ ext else [])"

text \<open>
  \<open>fdd-begin\s+(fdd-[a-z0-9-]+(?:-flow|-algo|-state|-req|-test|-change)-[a-z0-9-]+):ph-\d+:(inst-[a-z0-9-]+)\<close>
  and the same with \<open>fdd-end\<close>.
\<close>

definition marker_pattern :: "builtins \<Rightarrow> string \<Rightarrow> re" where
  "marker_pattern U word =
     seq [Lit (lit word), Plus isspace,
          Grp (seq [Lit (lit ''fdd-''), Plus idc,
                    alt [Lit (lit ''-flow''), Lit (lit ''-algo''), Lit (lit ''-state''),
                         Lit (lit ''-req''), Lit (lit ''-test''), Lit (lit ''-change'')],
                    Lit (lit ''-''), Plus idc]),
          Lit (lit '':ph-''), Plus (decimal U), Lit (lit '':''),
          Grp (seq [Lit (lit ''inst-''), Plus idc])]"

definition begin_pattern :: "builtins \<Rightarrow> re" where
  "begin_pattern U = marker_pattern U ''fdd-begin''"

definition end_pattern :: "builtins \<Rightarrow> re" where
  "end_pattern U = marker_pattern U ''fdd-end''"

text \<open>The second of \<open>m.groups()\<close>.\<close>

definition group2 :: "str list \<Rightarrow> str" where
  "group2 caps = (case caps of g1 # g2 # _ \<Rightarrow> g2 | _ \<Rightarrow> [])"

text \<open>
  The body of either \<open>if\<close> of the loop of \<open>scan_file\<close>: the entry of the instruction is
  created if missing, its flag is set (\<open>flag\<close> is one of the two assignments), and the
  scope is added to its scopes if new.  The entry exists when it is updated.
\<close>

definition note_marker :: "(tag_info \<Rightarrow> tag_info) \<Rightarrow> str list \<Rightarrow> inst_tags \<Rightarrow> inst_tags" where
  "note_marker flag caps inst_tags =
     (let scope_id = group1 caps; inst_id = group2 caps;
          tags1 = (if inst_id \<notin> fst ` set inst_tags
                   then inst_tags @ [(inst_id, \<lparr>has_begin = False, has_end = False,
                                                complete = False, scopes = []\<rparr>)]
                   else inst_tags);
          tags2 = AList.map_entry inst_id flag tags1
      in AList.map_entry inst_id
           (\<lambda>info. if scope_id \<notin> set (scopes info)
                    then info\<lparr>scopes := scopes info @ [scope_id]\<rparr> else info)
           tags2)"

definition scan_line :: "builtins \<Rightarrow> inst_tags \<Rightarrow> str \<Rightarrow> inst_tags" where
  "scan_line U inst_tags line =
     (let tags1 = (case re_search (begin_pattern U) line of
                     None \<Rightarrow> inst_tags
                   | Some caps \<Rightarrow> note_marker (\<lambda>info. info\<lparr>has_begin := True\<rparr>) caps inst_tags)
      in (case re_search (end_pattern U) line of
            None \<Rightarrow> tags1
          | Some caps \<Rightarrow> note_marker (\<lambda>info. info\<lparr>has_end := True\<rparr>) caps tags1))"

text \<open>\<open>scan_file\<close>: a file that cannot be read is passed over.\<close>

definition scan_file :: "builtins \<Rightarrow> inst_tags \<Rightarrow> str option \<Rightarrow> inst_tags" where
  "scan_file U inst_tags content =
     (case content of
        None \<Rightarrow> inst_tags
      | Some text \<Rightarrow> foldl (scan_line U) inst_tags (split_nl text))"

text \<open>\<open>scan_directory\<close> and its loop over the entries; a directory that cannot be
  listed is passed over.\<close>

fun scan_directory :: "builtins \<Rightarrow> inst_tags \<Rightarrow> fsnode \<Rightarrow> inst_tags"
  and scan_items :: "builtins \<Rightarrow> inst_tags \<Rightarrow> fsnode list \<Rightarrow> inst_tags" where
  "scan_directory U inst_tags (Dir name (Some items)) = scan_items U inst_tags items"
| "scan_directory U inst_tags (Dir name None) = inst_tags"
| "scan_directory U inst_tags (File name content) = inst_tags"
| "scan_directory U inst_tags (Other name) = inst_tags"
| "scan_items U inst_tags [] = inst_tags"
| "scan_items U inst_tags (Dir name entries # rest) =
     scan_items U
       (if name \<notin> set skip_dirs then scan_directory U inst_tags (Dir name entries) else inst_tags)
       rest"
| "scan_items U inst_tags (File name content # rest) =
     scan_items U
       (if suffix name \<in> set code_extensions then scan_file U inst_tags content else inst_tags)
       rest"
| "scan_items U inst_tags (Other name # rest) = scan_items U inst_tags rest"

text \<open>
  \<open>extract_inst_tags_from_code\<close>.  The path arithmetic is left to the caller:
  \<open>feature_root_exists\<close> is \<open>feature_root.exists()\<close>, and \<open>project_root\<close> is what stands at
  \<open>feature_root.parent.parent.parent\<close> (\<open>None\<close>: nothing).  The last loop marks an
  instruction complete if both flags are set.
\<close>

definition extract_inst_tags_from_code :: "builtins \<Rightarrow> bool \<Rightarrow> fsnode option \<Rightarrow> inst_tags" where
  "extract_inst_tags_from_code U feature_root_exists project_root =
     (let inst_tags =
            (if feature_root_exists then
               (case project_root of
                  None \<Rightarrow> []
                | Some root \<Rightarrow> scan_directory U [] root)
             else [])
      in map (\<lambda>(inst_id, info). (inst_id, info\<lparr>complete := has_begin info \<and> has_end info\<rparr>))
           inst_tags)"

subsection \<open>What the scan observes\<close>

text \<open>
  The texts of the files the walk reads, in the order of the walk, and their lines; the
  instruction a line carries in a begin marker and in an end marker.
\<close>

fun tree_files :: "fsnode \<Rightarrow> str list"
  and items_files :: "fsnode list \<Rightarrow> str list" where
  "tree_files (Dir name (Some items)) = items_files items"
| "tree_files (Dir name None) = []"
| "tree_files (File name content) = []"
| "tree_files (Other name) = []"
| "items_files [] = []"
| "items_files (Dir name entries # rest) =
     (if name \<notin> set skip_dirs then tree_files (Dir name entries) else []) @ items_files rest"
| "items_files (File name content # rest) =
     (if suffix name \<in> set code_extensions
      then (case content of None \<Rightarrow> [] | Some text \<Rightarrow> [text]) else []) @ items_files rest"
| "items_files (Other name # rest) = items_files rest"

definition scanned_lines :: "fsnode \<Rightarrow> str list" where
  "scanned_lines root = concat (map split_nl (tree_files root))"

definition begin_inst :: "builtins \<Rightarrow> str \<Rightarrow> str option" where
  "begin_inst U line = map_option group2 (re_search (begin_pattern U) line)"

definition end_inst :: "builtins \<Rightarrow> str \<Rightarrow> str option" where
  "end_inst U line = map_option group2 (re_search (end_pattern U) line)"

text \<open>The two flags of an instruction in the dictionary, false if it has no entry.\<close>

definition begin_seen :: "inst_tags \<Rightarrow> str \<Rightarrow> bool" where
  "begin_seen inst_tags i = (case map_of inst_tags i of None \<Rightarrow> False | Some info \<Rightarrow> has_begin info)"

definition end_seen :: "inst_tags \<Rightarrow> str \<Rightarrow> bool" where
  "end_seen inst_tags i = (case map_of inst_tags i of None \<Rightarrow> False | Some info \<Rightarrow> has_end info)"

definition add_scope :: "str \<Rightarrow> tag_info \<Rightarrow> tag_info" where
  "add_scope scope_id info =
     (if scope_id \<notin> set (scopes info) then info\<lparr>scopes := scopes info @ [scope_id]\<rparr> else info)"

section \<open>The completion reconciler (\<open>validation/fdl.py\<close>)\<close>

text \<open>
  The status pattern: \<open>\*\*Status\*\*:\s*(E1\s*COMPLETED|E2\s*IN_PROGRESS|E3\s*NOT_STARTED|E4\s*IMPLEMENTED)\<close>
  where \<open>E1\<close> to \<open>E4\<close> are the code points U+2705, U+1F504, U+23F3 and U+2728.
\<close>

definition status_pattern :: re where
  "status_pattern =
     seq [Lit (lit ''**Status**:''), Star isspace,
          Grp (alt [seq [Lit [0x2705], Star isspace, Lit (lit ''COMPLETED'')],
                    seq [Lit [0x1F504], Star isspace, Lit (lit ''IN_PROGRESS'')],
                    seq [Lit [0x23F3], Star isspace, Lit (lit ''NOT_STARTED'')],
                    seq [Lit [0x2728], Star isspace, Lit (lit ''IMPLEMENTED'')]])]"

text \<open>
  The inner loop over \<open>enumerate(data["instructions"])\<close>: \<open>data["completed"][i]\<close> raises
  \<open>IndexError\<close> past the end of the list.
\<close>

fun uncompleted_scope ::
    "str \<Rightarrow> scope_entry \<Rightarrow> nat \<Rightarrow> (str \<times> str) list \<Rightarrow> str list \<Rightarrow> py_error + (str \<times> str) list" where
  "uncompleted_scope scope_id data i acc [] = Inr acc"
| "uncompleted_scope scope_id data i acc (inst_id # rest) =
     (if i < length (completed data) then
        uncompleted_scope scope_id data (i + 1)
          (if \<not> truthy (completed data ! i) then acc @ [(scope_id, inst_id)] else acc) rest
      else Inl IndexError)"

fun uncompleted_loop :: "fdl \<Rightarrow> (str \<times> str) list \<Rightarrow> py_error + (str \<times> str) list" where
  "uncompleted_loop [] acc = Inr acc"
| "uncompleted_loop ((scope_id, data) # rest) acc =
     (case uncompleted_scope scope_id data 0 acc (instructions data) of
        Inl err \<Rightarrow> Inl err
      | Inr acc' \<Rightarrow> uncompleted_loop rest acc')"

text \<open>
  \<open>validate_fdl_completion\<close>.  The name \<open>feature_root\<close> is bound neither in the function
  nor in the module, so evaluating it in the test of the \<open>IMPLEMENTED\<close> branch raises
  \<open>NameError\<close>; \<open>and\<close> evaluates it only when the comparison before it is true.
\<close>

definition validate_fdl_completion :: "str \<Rightarrow> fdl \<Rightarrow> py_error + pydict list" where
  "validate_fdl_completion changes_text design_fdl =
     (case re_search status_pattern changes_text of
        None \<Rightarrow> Inr []
      | Some caps \<Rightarrow>
          let status = strip (group1 caps) in
          if \<not> truthy status then Inr []
          else if status = lit ''IMPLEMENTED'' then Inl NameError
          else
            (case uncompleted_loop design_fdl [] of
               Inl err \<Rightarrow> Inl err
             | Inr uncompleted_instructions \<Rightarrow>
                 Inr (if uncompleted_instructions \<noteq> [] then
                        [[(lit ''type'', VStr (lit ''premature_completion'')),
                          (lit ''message'',
                           VStr (lit ''Feature marked COMPLETED but FDL instructions not all implemented ([x])'')),
                          (lit ''uncompleted_count'', VInt (int (length uncompleted_instructions))),
                          (lit ''examples'',
                           VDicts (map (\<lambda>(scope, inst).
                                          [(lit ''scope'', VStr scope), (lit ''instruction'', VStr inst)])
                                     (take 10 uncompleted_instructions)))]]
                      else [])))"

section \<open>Python sets, paths and the text loader\<close>




text \<open>
  A \<open>Path\<close> is the list of its components; \<open>load_text\<close>, which is not among the sources,
  returns the text of a file or an error message, one of the two being \<open>None\<close>.
\<close>

type_synonym path = "str list"






section \<open>Business model and decision index (\<open>utils/helpers.py\<close>)\<close>








section \<open>The decision log (\<open>validation/artifacts/adr.py\<close>)\<close>











section \<open>The design document (\<open>validation/artifacts/adr.py\<close>)\<close>

















subsection \<open>The rules of the traceability engine in the words of the spec\<close>





section \<open>A concrete instance of the constants\<close>

text \<open>A pattern object made from an embedded expression.\<close>

definition compile :: "re \<Rightarrow> pattern" where
  "compile r = \<lparr>p_match = re_match r, p_search = re_search r, p_findall = re_findall r\<rparr>"

definition ascii_digit :: "codepoint \<Rightarrow> bool" where
  "ascii_digit c \<longleftrightarrow> 0x30 \<le> c \<and> c \<le> 0x39"

text \<open>
  One instance of the interpreter's tables, for the closed examples: the ASCII digits as
  decimal digits, and \<open>int\<close> on strings of ASCII digits.
\<close>

definition ascii_int :: "str \<Rightarrow> int option" where
  "ascii_int s =
     (if s \<noteq> [] \<and> list_all ascii_digit s
      then Some (foldl (\<lambda>a c. 10 * a + (int c - 48)) 0 s) else None)"

definition sample_builtins :: builtins where
  "sample_builtins = \<lparr>decimal = ascii_digit, int_of_str = ascii_int\<rparr>"

text \<open>A checkbox, and an identifier of a given kind.\<close>

definition re_checkbox :: re where
  "re_checkbox = seq [Lit (lit ''[''), Cls (\<lambda>c. c = 0x20 \<or> c = 0x78 \<or> c = 0x58), Lit (lit '']'')]"

definition re_typed_id :: "string \<Rightarrow> re" where
  "re_typed_id kind =
     seq [Lit (lit ''fdd-''), Plus idc, Lit (lit ''-''), Lit (lit kind), Lit (lit ''-''), Plus idc]"

text \<open>
  Modelled from the spec: the module \<open>constants\<close> is not among the sources.  The patterns
  below follow the document conventions of the spec (section 6: checkbox-prefixed
  \<open>**ID**:\<close> declaration lines, numbered step lines with a checkbox, \<open>## <Letter>. <Title>\<close>
  headings, \<open>## ADR-<4 digits>: <title>\<close> headings with \<open>**Date**:\<close> and \<open>**Status**:\<close> lines)
  and its vocabulary of unresolved-work tokens (section 4.3).  They are one concrete
  instance of the constants, used in the closed examples only; every general theorem
  holds for all constants.
\<close>

definition sample_constants :: constants where
  "sample_constants =
     \<lparr>FDL_SCOPE_ID_RE = compile (seq [Bos, Star isspace, Cls (\<lambda>c. c = 0x2D \<or> c = 0x2A),
                                     Plus isspace, re_checkbox, Plus isspace, Lit (lit ''**ID**:'')]),
      FDL_STEP_LINE_RE = compile (seq [Bos, Star isspace, Plus ascii_digit, Lit (lit ''.''),
                                      Star isspace, re_checkbox]),
      PLACEHOLDER_RE = compile (alt [Lit (lit ''TODO''), Lit (lit ''TBD''), Lit (lit ''FIXME''),
                                    Lit (lit ''XXX''), Lit (lit ''TBA'')]),
      HEADING_ID_RE = compile (seq [Bos, Lit (lit ''##''), Plus isspace,
                                   Grp (Cls (\<lambda>c. 0x41 \<le> c \<and> c \<le> 0x5A)), Lit (lit ''.'')]),
      ACTOR_ID_RE = compile (re_typed_id ''actor''),
      CAPABILITY_ID_RE = compile (re_typed_id ''capability''),
      USECASE_ID_RE = compile (re_typed_id ''usecase''),
      REQ_ID_RE = compile (re_typed_id ''req''),
      PRINCIPLE_ID_RE = compile (re_typed_id ''principle''),
      ADR_HEADING_RE = compile (seq [Bos, Lit (lit ''##''), Plus isspace,
                                    Grp (seq [Lit (lit ''ADR-''),
                                              Grp (seq [Cls ascii_digit, Cls ascii_digit,
                                                        Cls ascii_digit, Cls ascii_digit])]),
                                    Lit (lit '':''), Plus isspace, Grp (Plus (\<lambda>c. c \<noteq> 0x0A))]),
      ADR_DATE_RE = compile (seq [Lit (lit ''**Date**:''), Star isspace,
                                 Grp (seq [Plus ascii_digit, Lit (lit ''-''), Plus ascii_digit,
                                           Lit (lit ''-''), Plus ascii_digit])]),
      ADR_STATUS_RE = compile (seq [Lit (lit ''**Status**:''), Star isspace,
                                   Grp (alt [Lit (lit ''Proposed''), Lit (lit ''Accepted''),
                                             Lit (lit ''Rejected''), Lit (lit ''Deprecated'')])]),
      ADR_ID_RE = compile (re_typed_id ''adr''),
      ADR_NUM_RE = compile (seq [Lit (lit ''ADR-''),
                                Grp (seq [Cls ascii_digit, Cls ascii_digit,
                                          Cls ascii_digit, Cls ascii_digit])])\<rparr>"

text \<open>Small documents for the closed examples.\<close>

definition doc1 :: str where
  "doc1 = lit ''- [ ] **ID**: `fdd-x-flow-a`\<newline>1. [x] do `inst-a`\<newline>2. [ ] no `inst-b`\<newline>3. [X] do `inst-a`''"

definition doc2 :: str where
  "doc2 = lit ''1. [x] early `inst-z`\<newline>- [ ] **ID**: `fdd-x-flow-a`\<newline>1. [x] do `inst-a`''"

definition doc3 :: str where
  "doc3 = lit ''## B. Body\<newline>text\<newline>## A. Intro''"

definition required_ab :: "(str \<times> str) list" where
  "required_ab = [(lit ''A'', lit ''Intro''), (lit ''B'', lit ''Body'')]"

definition doc4 :: str where
  "doc4 = lit ''intro\<newline>- TODO: finish this\<newline>done''"

definition doc5 :: str where
  "doc5 = lit ''  - TODO: finish this''"

text \<open>A project tree: an end marker in one file, the matching begin marker in a file of
  a subdirectory read later, a marker in a file whose extension is not scanned, and one
  under a skipped directory.\<close>

definition tree1 :: fsnode where
  "tree1 =
     Dir (lit ''proj'')
       (Some [File (lit ''a.py'') (Some (lit ''# fdd-end fdd-x-feature-y-flow-z:ph-1:inst-a'')),
              File (lit ''notes.txt'') (Some (lit ''fdd-begin fdd-x-feature-y-flow-z:ph-1:inst-c'')),
              Dir (lit ''tests'')
                (Some [File (lit ''t.py'') (Some (lit ''# fdd-begin fdd-x-feature-y-flow-z:ph-1:inst-b''))]),
              Dir (lit ''src'')
                (Some [File (lit ''b.rs'') (Some (lit ''// fdd-begin fdd-x-feature-y-flow-z:ph-2:inst-a''))])])"

text \<open>Two change logs, and the dictionary the extractor returns for \<open>doc1\<close>.\<close>

definition changes_implemented :: str where
  "changes_implemented = lit ''**Status**: '' @ [0x2728] @ lit '' IMPLEMENTED''"

definition changes_completed :: str where
  "changes_completed = lit ''**Status**: '' @ [0x2705] @ lit '' COMPLETED''"

definition fdl1 :: fdl where
  "fdl1 = [(lit ''fdd-x-flow-a'',
           \<lparr>instructions = [lit ''inst-a'', lit ''inst-a''],
              completed = [lit ''inst-a'', lit ''inst-a'']\<rparr>)]"

definition empty_project :: fsnode where
  "empty_project = Dir (lit ''proj'') (Some [])"















section \<open>Properties of the scoped-instruction extractor\<close>

lemma search_from_Some:
  "search_from r l s = Some (caps, l0, cur) \<Longrightarrow> \<exists>s'. (caps, cur) \<in> set (rmatch r ([], l0, s'))"
proof (induction s arbitrary: l)
  case Nil
  then have "(caps, cur) \<in> set (rmatch r ([], l, []))" and "l0 = l"
    by (auto split: list.splits)
  then show ?case by blast
next
  case (Cons c cs)
  show ?case
  proof (cases "rmatch r ([], l, c # cs)")
    case Nil
    with Cons show ?thesis by simp
  next
    case (Cons x xs)
    with Cons.prems have "(caps, cur) \<in> set (rmatch r ([], l, c # cs))" and "l0 = l"
      by (auto split: prod.splits)
    then show ?thesis by blast
  qed
qed

lemma re_search_Some:
  "re_search r s = Some caps \<Longrightarrow> \<exists>l' s' cur. (caps, cur) \<in> set (rmatch r ([], l', s'))"
  unfolding re_search_def by (auto dest!: search_from_Some)

lemma star_steps_left: "(l', r') \<in> set (star_steps p l r) \<Longrightarrow> \<exists>x. l' = x @ l \<and> length l' = length x + length l"
  by (induction p l r rule: star_steps.induct) (auto split: if_splits)

lemma rmatch_scope_id_caps:
  "(caps, cur) \<in> set (rmatch re_scope_id ([], l, r)) \<Longrightarrow> \<exists>x. caps = [lit ''fdd-'' @ x]"
  apply (auto simp: re_scope_id_def seq_def startswith_def split: if_splits list.splits dest!: star_steps_left)
  done

lemma rmatch_inst_id_caps:
  "(caps, cur) \<in> set (rmatch re_inst_id ([], l, r)) \<Longrightarrow> \<exists>x. caps = [lit ''inst-'' @ x]"
  by (auto simp: re_inst_id_def seq_def startswith_def split: if_splits list.splits dest!: star_steps_left)

lemma scope_id_truthy: "re_search re_scope_id line = Some caps \<Longrightarrow> truthy (group1 caps)"
  by (drule re_search_Some) (auto dest!: rmatch_scope_id_caps simp: group1_def truthy_def lit_def)

lemma inst_id_truthy: "re_search re_inst_id line = Some caps \<Longrightarrow> truthy (group1 caps)"
  by (drule re_search_Some) (auto dest!: rmatch_inst_id_caps simp: group1_def truthy_def lit_def)

lemma declares_scope_truthy: "declares_scope K line = Some sid \<Longrightarrow> truthy sid"
  by (auto simp: declares_scope_def dest: scope_id_truthy split: if_splits)

lemma checked_step_truthy: "checked_step U K line = Some i \<Longrightarrow> truthy i"
  by (auto simp: checked_step_def dest: inst_id_truthy split: if_splits)

text \<open>The two halves of the loop body in terms of the two line classifiers.\<close>

lemma set_scope_eq:
  "set_scope K st line =
     (case declares_scope K line of
        None \<Rightarrow> st
      | Some sid \<Rightarrow>
          \<lparr>result = (if sid \<in> fst ` set (result st) then result st
                     else result st @ [(sid, \<lparr>instructions = [], completed = []\<rparr>)]),
           current_scope_id = Some sid\<rparr>)"
  by (simp add: set_scope_def declares_scope_def Let_def split: option.splits)

lemma add_step_eq:
  assumes "current_scope_id st = Some sid" "truthy sid" "map_of (result st) sid = Some e"
  shows "add_step U K st line =
     (case checked_step U K line of
        None \<Rightarrow> Inr st
      | Some i \<Rightarrow> Inr (st\<lparr>result := AList.update sid (push i e) (result st)\<rparr>))"
  using assms
  by (auto simp: add_step_def checked_step_def append_to_def Let_def push_def update_conv'
           split: option.splits)

lemma add_step_None: "current_scope_id st = None \<Longrightarrow> add_step U K st line = Inr st"
  by (simp add: add_step_def)

lemma fdl_lines_append:
  "fdl_lines U K st (xs @ ys) =
     (case fdl_lines U K st xs of Inl err \<Rightarrow> Inl err | Inr st' \<Rightarrow> fdl_lines U K st' ys)"
  by (induction xs arbitrary: st) (auto split: sum.splits)

lemma fdl_inv_set_scope: "fdl_inv st \<Longrightarrow> fdl_inv (set_scope K st line)"
  by (auto simp: set_scope_eq fdl_inv_def dest: declares_scope_truthy split: option.splits)

lemma fdl_inv_add_step:
  assumes "fdl_inv st"
  shows "\<exists>st'. add_step U K st line = Inr st' \<and> fdl_inv st' \<and>
           current_scope_id st' = current_scope_id st \<and>
           fst ` set (result st') = fst ` set (result st)"
proof (cases "current_scope_id st")
  case None
  with assms show ?thesis by (simp add: add_step_None)
next
  case (Some sid)
  with assms have t: "truthy sid" and k: "sid \<in> fst ` set (result st)"
    and d: "distinct (map fst (result st))"
    by (auto simp: fdl_inv_def)
  from k obtain e where e: "map_of (result st) sid = Some e"
    by (metis domD dom_map_of_conv_image_fst)
  show ?thesis
    using Some t k d
    by (auto simp: add_step_eq[OF Some t e] fdl_inv_def distinct_update dom_update
                   image_iff
             split: option.splits)
qed

lemma declared_snoc:
  "declared K (ls @ [l]) =
     declared K ls @ (case declares_scope K l of None \<Rightarrow> [] | Some s \<Rightarrow> [s])"
  by (simp add: declared_def map_filter_def split: option.splits)

lemma last_scope_snoc:
  "last_scope K (ls @ [l]) =
     (case declares_scope K l of None \<Rightarrow> last_scope K ls | Some s \<Rightarrow> Some s)"
  by (auto simp: last_scope_def declared_snoc split: option.splits)

lemma last_scope_declared: "last_scope K ls = Some S \<Longrightarrow> S \<in> set (declared K ls)"
  by (auto simp: last_scope_def split: if_splits)

lemma declared_take: "set (declared K (take n ls)) \<subseteq> set (declared K ls)"
  by (auto simp: declared_def map_filter_def dest: in_set_takeD)

lemma map_filter_cong_set:
  "(\<And>x. x \<in> set xs \<Longrightarrow> f x = g x) \<Longrightarrow> List.map_filter f xs = List.map_filter g xs"
  by (induction xs) (auto simp: map_filter_def)

lemma map_filter_all_None:
  "(\<And>x. x \<in> set xs \<Longrightarrow> f x = None) \<Longrightarrow> List.map_filter f xs = []"
  by (induction xs) (auto simp: map_filter_def)

lemma steps_under_undeclared: "S \<notin> set (declared K ls) \<Longrightarrow> steps_under U K S ls = []"
  unfolding steps_under_def
  by (rule map_filter_all_None)
     (use declared_take in \<open>auto simp: scope_at_def dest!: last_scope_declared\<close>)

lemma steps_under_snoc:
  "steps_under U K S (ls @ [l]) =
     steps_under U K S ls @
     (if last_scope K (ls @ [l]) = Some S
      then (case checked_step U K l of None \<Rightarrow> [] | Some i \<Rightarrow> [i]) else [])"
proof -
  have "List.map_filter
          (\<lambda>i. if scope_at K (ls @ [l]) i = Some S then checked_step U K ((ls @ [l]) ! i) else None)
          [0..<length ls] = steps_under U K S ls"
    unfolding steps_under_def
    by (rule map_filter_cong_set) (simp add: scope_at_def nth_append)
  then show ?thesis
    by (simp add: steps_under_def[of U K S "ls @ [l]"] map_filter_def scope_at_def
             split: option.splits)
qed

lemma fdl_lines_spec:
  "\<exists>st. fdl_lines U K fdl_init ls = Inr st \<and> fdl_inv st \<and>
        current_scope_id st = last_scope K ls \<and>
        (\<forall>S. map_of (result st) S =
              (if S \<in> set (declared K ls)
               then Some \<lparr>instructions = steps_under U K S ls,
                          completed = steps_under U K S ls\<rparr>
               else None))"
proof (induction ls rule: rev_induct)
  case Nil
  show ?case
    by (simp add: fdl_init_def fdl_inv_def last_scope_def declared_def map_filter_def)
next
  case (snoc l ls)
  then obtain st where run: "fdl_lines U K fdl_init ls = Inr st" and inv: "fdl_inv st"
    and cur: "current_scope_id st = last_scope K ls"
    and res: "\<And>S. map_of (result st) S =
              (if S \<in> set (declared K ls)
               then Some \<lparr>instructions = steps_under U K S ls,
                          completed = steps_under U K S ls\<rparr>
               else None)"
    by blast
  have keys: "fst ` set (result st) = set (declared K ls)"
    using res by (auto simp: dom_map_of_conv_image_fst[symmetric] dom_def)
  define st1 where "st1 = set_scope K st l"
  have inv1: "fdl_inv st1"
    unfolding st1_def by (rule fdl_inv_set_scope[OF inv])
  have cur1: "current_scope_id st1 = last_scope K (ls @ [l])"
    by (simp add: st1_def set_scope_eq last_scope_snoc cur split: option.splits)
  have res1: "map_of (result st1) S =
              (if S \<in> set (declared K (ls @ [l]))
               then Some \<lparr>instructions = steps_under U K S ls,
                          completed = steps_under U K S ls\<rparr>
               else None)" for S
    using res[of S] keys
    by (auto simp: st1_def set_scope_eq declared_snoc steps_under_undeclared map_add_def
             split: option.splits)
  obtain st2 where step: "add_step U K st1 l = Inr st2" and inv2: "fdl_inv st2"
    and cur2: "current_scope_id st2 = current_scope_id st1"
    using fdl_inv_add_step[OF inv1] by blast
  have run2: "fdl_lines U K fdl_init (ls @ [l]) = Inr st2"
    by (simp add: fdl_lines_append run step st1_def[symmetric])
  have res2: "map_of (result st2) S =
              (if S \<in> set (declared K (ls @ [l]))
               then Some \<lparr>instructions = steps_under U K S (ls @ [l]),
                          completed = steps_under U K S (ls @ [l])\<rparr>
               else None)" for S
  proof (cases "current_scope_id st1")
    case None
    then have "st2 = st1" using step by (simp add: add_step_None)
    moreover have "last_scope K (ls @ [l]) \<noteq> Some S" using None cur1 by simp
    ultimately show ?thesis using res1[of S] by (simp add: steps_under_snoc)
  next
    case (Some sid)
    with inv1 have t: "truthy sid" by (simp add: fdl_inv_def)
    from Some cur1 have ls: "last_scope K (ls @ [l]) = Some sid" by simp
    then have d: "sid \<in> set (declared K (ls @ [l]))" by (rule last_scope_declared)
    with res1[of sid] have e: "map_of (result st1) sid =
        Some \<lparr>instructions = steps_under U K sid ls, completed = steps_under U K sid ls\<rparr>"
      by simp
    show ?thesis
      using step res1[of S] d
      by (auto simp: add_step_eq[OF Some t e] steps_under_snoc ls push_def update_conv'
               split: option.splits)
  qed
  show ?case using run2 inv2 cur2 cur1 res2 by auto
qed

subsection \<open>Evaluation of the closed examples\<close>

text \<open>Facts that evaluate the closed examples.\<close>

lemmas ev = lit_def seq_def alt_def startswith_def isspace_def is_linebreak_def idc_def splitlines_def
  re_match_def re_search_def compile_def ascii_digit_def sample_builtins_def re_checkbox_def 
  re_scope_id_def re_step_checked_def re_inst_id_def group1_def truthy_def strip_def
  re_typed_id_def sample_constants_def

lemma lit_inj: "lit a = lit b \<longleftrightarrow> a = b"
  unfolding lit_def by (simp add: inj_map_eq_map inj_on_def)

lemma doc1_lines:
  "splitlines doc1 = [lit ''- [ ] **ID**: `fdd-x-flow-a`'', lit ''1. [x] do `inst-a`'',
                      lit ''2. [ ] no `inst-b`'', lit ''3. [X] do `inst-a`'']"
  by (simp add: ev doc1_def)

lemma doc1_extract:
  "extract_fdl_instructions sample_builtins sample_constants doc1 =
     Inr [(lit ''fdd-x-flow-a'',
           \<lparr>instructions = [lit ''inst-a'', lit ''inst-a''],
              completed = [lit ''inst-a'', lit ''inst-a'']\<rparr>)]"
  unfolding extract_fdl_instructions_def doc1_lines
  by (simp add: ev extract_lines_def set_scope_def add_step_def append_to_def Let_def)

lemma doc2_lines:
  "splitlines doc2 = [lit ''1. [x] early `inst-z`'', lit ''- [ ] **ID**: `fdd-x-flow-a`'',
                      lit ''1. [x] do `inst-a`'']"
  by (simp add: ev doc2_def)

lemma doc2_extract:
  "extract_fdl_instructions sample_builtins sample_constants doc2 =
     Inr [(lit ''fdd-x-flow-a'',
           \<lparr>instructions = [lit ''inst-a''], completed = [lit ''inst-a'']\<rparr>)]"
  unfolding extract_fdl_instructions_def doc2_lines
  by (simp add: ev extract_lines_def set_scope_def add_step_def append_to_def Let_def)

text \<open>
  Claim C9.  For every input text the extractor returns (it never raises), and in every
  scope entry of its result the \<open>completed\<close> list is element for element the
  \<open>instructions\<close> list; every recorded instruction ID is a non-empty string, so no entry
  of a \<open>completed\<close> list is falsy.
\<close>

theorem extract_completed_equals_instructions:
  "\<exists>res. extract_fdl_instructions U K text = Inr res \<and>
     (\<forall>(S, e) \<in> set res. completed e = instructions e \<and> (\<forall>i \<in> set (completed e). truthy i))"
proof -
  obtain st where run: "fdl_lines U K fdl_init (splitlines text) = Inr st" and inv: "fdl_inv st"
    and res: "\<And>S. map_of (result st) S =
              (if S \<in> set (declared K (splitlines text))
               then Some \<lparr>instructions = steps_under U K S (splitlines text),
                          completed = steps_under U K S (splitlines text)\<rparr>
               else None)"
    using fdl_lines_spec[of U K "splitlines text"] by blast
  have "completed e = instructions e \<and> (\<forall>i \<in> set (completed e). truthy i)"
    if "(S, e) \<in> set (result st)" for S e
  proof -
    from inv have "distinct (map fst (result st))" by (simp add: fdl_inv_def)
    with that have "map_of (result st) S = Some e" by simp
    with res[of S] have e: "e = \<lparr>instructions = steps_under U K S (splitlines text),
                          completed = steps_under U K S (splitlines text)\<rparr>"
      by (simp split: if_splits)
    have "truthy i" if "i \<in> set (steps_under U K S (splitlines text))" for i
      using that
      by (auto simp: steps_under_def map_filter_def dest: checked_step_truthy split: if_splits)
    with e show ?thesis by simp
  qed
  with run show ?thesis
    by (auto simp: extract_fdl_instructions_def extract_lines_def fdl_init_def)
qed

theorem extract_completed_equals_instructions_witness:
  "extract_fdl_instructions sample_builtins sample_constants doc1 =
     Inr [(lit ''fdd-x-flow-a'',
           \<lparr>instructions = [lit ''inst-a'', lit ''inst-a''],
              completed = [lit ''inst-a'', lit ''inst-a'']\<rparr>)] \<and>
   completed \<lparr>instructions = [lit ''inst-a'', lit ''inst-a''],
              completed = [lit ''inst-a'', lit ''inst-a'']\<rparr> =
   instructions \<lparr>instructions = [lit ''inst-a'', lit ''inst-a''],
              completed = [lit ''inst-a'', lit ''inst-a'']\<rparr> \<and>
   truthy (lit ''inst-a'')"
  using extract_completed_equals_instructions[of sample_builtins sample_constants doc1]
  unfolding doc1_extract by (simp add: truthy_def lit_def)

text \<open>
  Claim C7.  For every feature document and every scope \<open>S\<close>, the extractor returns an
  entry for \<open>S\<close> exactly when some line declares \<open>S\<close>, and the instruction list of that
  entry is the list of the instruction IDs of the checked step lines under \<open>S\<close>, in the
  order of the document and with duplicates kept; unchecked step lines contribute
  nothing, since \<open>checked_step\<close> is \<open>None\<close> on them.
\<close>

theorem extract_fdl_instructions_steps_in_order:
  "\<exists>res. extract_fdl_instructions U K text = Inr res \<and>
     (\<forall>S. map_option instructions (map_of res S) =
            (if S \<in> set (declared K (splitlines text))
             then Some (steps_under U K S (splitlines text)) else None))"
proof -
  obtain st where run: "fdl_lines U K fdl_init (splitlines text) = Inr st"
    and res: "\<And>S. map_of (result st) S =
              (if S \<in> set (declared K (splitlines text))
               then Some \<lparr>instructions = steps_under U K S (splitlines text),
                          completed = steps_under U K S (splitlines text)\<rparr>
               else None)"
    using fdl_lines_spec[of U K "splitlines text"] by blast
  from run have "extract_fdl_instructions U K text = Inr (result st)"
    by (simp add: extract_fdl_instructions_def extract_lines_def fdl_init_def)
  moreover have "map_option instructions (map_of (result st) S) =
            (if S \<in> set (declared K (splitlines text))
             then Some (steps_under U K S (splitlines text)) else None)" for S
    by (simp add: res)
  ultimately show ?thesis by blast
qed

theorem extract_fdl_instructions_steps_in_order_witness:
  "extract_fdl_instructions sample_builtins sample_constants doc1 =
     Inr [(lit ''fdd-x-flow-a'',
           \<lparr>instructions = [lit ''inst-a'', lit ''inst-a''],
              completed = [lit ''inst-a'', lit ''inst-a'']\<rparr>)] \<and>
   lit ''fdd-x-flow-a'' \<in> set (declared sample_constants (splitlines doc1)) \<and>
   steps_under sample_builtins sample_constants (lit ''fdd-x-flow-a'') (splitlines doc1) =
     [lit ''inst-a'', lit ''inst-a'']"
proof -
  obtain res where r: "extract_fdl_instructions sample_builtins sample_constants doc1 = Inr res"
    and s: "\<And>S. map_option instructions (map_of res S) =
            (if S \<in> set (declared sample_constants (splitlines doc1))
             then Some (steps_under sample_builtins sample_constants S (splitlines doc1))
             else None)"
    using extract_fdl_instructions_steps_in_order[of sample_builtins sample_constants doc1]
    by blast
  from r have res: "res = [(lit ''fdd-x-flow-a'',
           \<lparr>instructions = [lit ''inst-a'', lit ''inst-a''],
              completed = [lit ''inst-a'', lit ''inst-a'']\<rparr>)]"
    by (simp add: doc1_extract)
  from s[of "lit ''fdd-x-flow-a''"] show ?thesis
    unfolding doc1_extract res by (simp split: if_splits)
qed

lemma fdl_lines_skip:
  "fdl_lines U K fdl_init ls =
     fdl_lines U K fdl_init (dropWhile (\<lambda>l. declares_scope K l = None) ls)"
  by (induction ls) (auto simp: set_scope_eq add_step_None fdl_init_def)

text \<open>
  Claim C10.  The lines before the first scope-declaration line are ignored, checked step
  lines among them included: the result is the result of the extraction run on the
  lines from the first scope declaration on, so such a step line adds no instruction
  and creates no scope entry.
\<close>

theorem steps_before_first_scope_ignored:
  "extract_fdl_instructions U K text =
     extract_lines U K (dropWhile (\<lambda>l. declares_scope K l = None) (splitlines text))"
  using fdl_lines_skip[of U K "splitlines text"]
  by (simp add: extract_fdl_instructions_def extract_lines_def fdl_init_def)

lemma doc2_no_scope: "declares_scope sample_constants (lit ''1. [x] early `inst-z`'') = None"
  by (simp add: declares_scope_def ev)

lemma doc2_scope:
  "declares_scope sample_constants (lit ''- [ ] **ID**: `fdd-x-flow-a`'') = Some (lit ''fdd-x-flow-a'')"
  by (simp add: declares_scope_def ev)

lemma doc2_step:
  "checked_step sample_builtins sample_constants (lit ''1. [x] early `inst-z`'') = Some (lit ''inst-z'')"
  by (simp add: checked_step_def ev)

theorem steps_before_first_scope_ignored_witness:
  "checked_step sample_builtins sample_constants (lit ''1. [x] early `inst-z`'') = Some (lit ''inst-z'') \<and>
   extract_fdl_instructions sample_builtins sample_constants doc2 =
     extract_lines sample_builtins sample_constants
       [lit ''- [ ] **ID**: `fdd-x-flow-a`'', lit ''1. [x] do `inst-a`''] \<and>
   extract_fdl_instructions sample_builtins sample_constants doc2 =
     Inr [(lit ''fdd-x-flow-a'',
           \<lparr>instructions = [lit ''inst-a''], completed = [lit ''inst-a'']\<rparr>)]"
  using steps_before_first_scope_ignored[of sample_builtins sample_constants doc2]
  by (simp add: doc2_lines doc2_no_scope doc2_scope doc2_step doc2_extract)

section \<open>Properties of the placeholder scanner\<close>

lemma find_placeholders_loop_eq:
  "find_placeholders_loop K idx hits ls =
     hits @ [[(lit ''line'', VInt (int (idx + i))), (lit ''text'', VStr (ls ! i))].
              i \<leftarrow> [0..<length ls], p_search (PLACEHOLDER_RE K) (ls ! i) \<noteq> None]"
proof (induction ls arbitrary: idx hits)
  case Nil
  show ?case by simp
next
  case (Cons line rest)
  have "[0..<length (line # rest)] = 0 # map Suc [0..<length rest]"
    by (simp add: upt_conv_Cons map_Suc_upt del: upt_Suc)
  then show ?case
    by (simp add: Cons.IH o_def ac_simps del: upt_Suc cong: if_cong)
qed

text \<open>
  Claim C8, as amended.  For every input text the placeholder scanner reports one hit per
  line on which the placeholder pattern is found, in the order of the lines, and each
  hit carries the 1-based number of its line and the text of that line as
  \<open>splitlines\<close> gives it: the line boundary is removed, leading and trailing whitespace
  are kept.
\<close>

theorem find_placeholders_hits:
  "find_placeholders K artifact_text =
     [[(lit ''line'', VInt (int (i + 1))), (lit ''text'', VStr (splitlines artifact_text ! i))].
        i \<leftarrow> [0..<length (splitlines artifact_text)],
        p_search (PLACEHOLDER_RE K) (splitlines artifact_text ! i) \<noteq> None]"
  by (simp add: find_placeholders_def find_placeholders_loop_eq ac_simps cong: if_cong)

lemma doc4_hits:
  "find_placeholders sample_constants doc4 =
     [[(lit ''line'', VInt 2), (lit ''text'', VStr (lit ''- TODO: finish this''))]]"
  by (simp add: find_placeholders_def doc4_def ev)

text \<open>The line \<open>- TODO: finish this\<close> as the second of three lines: one hit, at line 2.\<close>

theorem find_placeholders_hits_witness:
  "find_placeholders sample_constants doc4 =
     [[(lit ''line'', VInt (int (i + 1))), (lit ''text'', VStr (splitlines doc4 ! i))].
        i \<leftarrow> [0..<length (splitlines doc4)],
        p_search (PLACEHOLDER_RE sample_constants) (splitlines doc4 ! i) \<noteq> None] \<and>
   find_placeholders sample_constants doc4 =
     [[(lit ''line'', VInt 2), (lit ''text'', VStr (lit ''- TODO: finish this''))]]"
  using find_placeholders_hits[of sample_constants doc4] doc4_hits by simp

text \<open>
  Claim C8 as stated fails: the hit carries the line as it stands, not trimmed.  On the
  one-line text \<open>  - TODO: finish this\<close> (two leading blanks) the hit's text keeps the
  blanks that \<open>strip\<close> removes.
\<close>

theorem find_placeholders_trimmed_counterexample:
  "find_placeholders sample_constants doc5 =
     [[(lit ''line'', VInt 1), (lit ''text'', VStr (lit ''  - TODO: finish this''))]] \<and>
   strip (lit ''  - TODO: finish this'') = lit ''- TODO: finish this'' \<and>
   lit ''  - TODO: finish this'' \<noteq> strip (lit ''  - TODO: finish this'')"
  by (simp add: find_placeholders_def doc5_def ev)

section \<open>Properties of the section-order check\<close>

lemma unparsed_message_not_order:
  "lit ''Could not parse required sections from requirements file (expected headings like ''
     @ [0x27] @ lit ''### Section X: ...'' @ [0x27] @ lit '')'' \<noteq>
   lit ''Sections are not in required order''"
  by (simp add: lit_def)

text \<open>
  Claim C4.  For every document and every required-section mapping, the result of
  \<open>validate_generic_sections\<close> holds an order-mismatch error exactly when the observed
  section codes restricted to the required codes differ from the required order, and
  every such error reports the observed restricted sequence as \<open>found_order\<close> (and the
  required order as \<open>required_order\<close>).  A permutation of the required codes other than
  the required order itself is one such difference.
\<close>

theorem section_order_check:
  "(filter is_order_error (errors (validate_generic_sections K rs artifact_text path)) \<noteq> [] \<longleftrightarrow>
      observed_required K rs artifact_text \<noteq> map fst rs) \<and>
   (\<forall>e \<in> set (filter is_order_error (errors (validate_generic_sections K rs artifact_text path))).
      map_of e (lit ''found_order'') = Some (VStrs (observed_required K rs artifact_text)) \<and>
      map_of e (lit ''required_order'') = Some (VStrs (map fst rs)))"
  using unparsed_message_not_order
  by (auto simp: validate_generic_sections_def Let_def is_order_error_def observed_required_def
                 lit_inj)



text \<open>Required order A, B; the document has B before A.\<close>

lemma doc3_present: "find_present_section_ids sample_constants doc3 = [lit ''B'', lit ''A'']"
  by (simp add: find_present_section_ids_def doc3_def ev)

lemma doc3_placeholders: "find_placeholders sample_constants doc3 = []"
  by (simp add: find_placeholders_def doc3_def ev)

lemma doc3_result:
  "validate_generic_sections sample_constants required_ab doc3 (lit ''req.md'') =
     \<lparr>required_section_count = 2, missing_sections = [], placeholder_hits = [],
      status = lit ''FAIL'',
      errors = [[(lit ''type'', VStr (lit ''structure'')),
                 (lit ''message'', VStr (lit ''Sections are not in required order'')),
                 (lit ''required_order'', VStrs [lit ''A'', lit ''B'']),
                 (lit ''found_order'', VStrs [lit ''B'', lit ''A''])]]\<rparr>"
  by (simp add: validate_generic_sections_def doc3_present doc3_placeholders required_ab_def
        count_sids_def Let_def lit_inj)

theorem section_order_check_witness:
  "observed_required sample_constants required_ab doc3 = [lit ''B'', lit ''A''] \<and>
   map fst required_ab = [lit ''A'', lit ''B''] \<and>
   filter is_order_error
     (errors (validate_generic_sections sample_constants required_ab doc3 (lit ''req.md''))) =
     [[(lit ''type'', VStr (lit ''structure'')),
       (lit ''message'', VStr (lit ''Sections are not in required order'')),
       (lit ''required_order'', VStrs [lit ''A'', lit ''B'']),
       (lit ''found_order'', VStrs [lit ''B'', lit ''A''])]] \<and>
   map_of [(lit ''type'', VStr (lit ''structure'')),
       (lit ''message'', VStr (lit ''Sections are not in required order'')),
       (lit ''required_order'', VStrs [lit ''A'', lit ''B'']),
       (lit ''found_order'', VStrs [lit ''B'', lit ''A''])] (lit ''found_order'') =
     Some (VStrs (observed_required sample_constants required_ab doc3))"
  using section_order_check[of sample_constants required_ab doc3 "lit ''req.md''"]
  unfolding doc3_result
  by (simp add: observed_required_def doc3_present required_ab_def is_order_error_def lit_inj)

section \<open>Properties of the code-marker scanner\<close>

lemma map_of_note_marker:
  "map_of (note_marker flag caps tags) i =
     (if i = group2 caps
      then Some (add_scope (group1 caps) (flag (case map_of tags i of
                   None \<Rightarrow> \<lparr>has_begin = False, has_end = False, complete = False, scopes = []\<rparr>
                 | Some info \<Rightarrow> info)))
      else map_of tags i)"
  by (auto simp: note_marker_def Let_def map_of_map_entry add_scope_def[abs_def] map_add_def
              dom_map_of_conv_image_fst[symmetric] domIff
           split: option.splits)

lemma begin_seen_scan_line:
  "begin_seen (scan_line U tags l) i \<longleftrightarrow> begin_seen tags i \<or> begin_inst U l = Some i"
  by (auto simp: scan_line_def begin_seen_def begin_inst_def map_of_note_marker add_scope_def
           split: option.splits)

lemma end_seen_scan_line:
  "end_seen (scan_line U tags l) i \<longleftrightarrow> end_seen tags i \<or> end_inst U l = Some i"
  by (auto simp: scan_line_def end_seen_def end_inst_def map_of_note_marker add_scope_def
           split: option.splits)

lemma begin_seen_foldl:
  "begin_seen (foldl (scan_line U) tags ls) i \<longleftrightarrow>
     begin_seen tags i \<or> (\<exists>l \<in> set ls. begin_inst U l = Some i)"
  by (induction ls arbitrary: tags) (auto simp: begin_seen_scan_line)

lemma end_seen_foldl:
  "end_seen (foldl (scan_line U) tags ls) i \<longleftrightarrow>
     end_seen tags i \<or> (\<exists>l \<in> set ls. end_inst U l = Some i)"
  by (induction ls arbitrary: tags) (auto simp: end_seen_scan_line)

lemma scan_as_foldl:
  "scan_directory U tags node = foldl (scan_line U) tags (concat (map split_nl (tree_files node)))"
  "scan_items U tags items = foldl (scan_line U) tags (concat (map split_nl (items_files items)))"
  by (induction U tags node and U tags items rule: scan_directory_scan_items.induct)
     (auto simp: scan_file_def split: option.splits)

lemma begin_seen_scan_directory:
  "begin_seen (scan_directory U [] root) i \<longleftrightarrow> (\<exists>l \<in> set (scanned_lines root). begin_inst U l = Some i)"
  unfolding scan_as_foldl begin_seen_foldl scanned_lines_def by (simp add: begin_seen_def)

lemma end_seen_scan_directory:
  "end_seen (scan_directory U [] root) i \<longleftrightarrow> (\<exists>l \<in> set (scanned_lines root). end_inst U l = Some i)"
  unfolding scan_as_foldl end_seen_foldl scanned_lines_def by (simp add: end_seen_def)

text \<open>
  Claim C3.  For every scanned tree, an instruction ID is recorded as complete if and
  only if some line of a scanned file carries a begin marker with that ID and some line
  of a scanned file carries an end marker with it.  Neither side says which line comes
  first, how far apart the two are, or whether they stand in the same file.
\<close>

theorem code_marker_complete_iff:
  "(\<exists>info. map_of (extract_inst_tags_from_code U True (Some root)) i = Some info \<and> complete info) \<longleftrightarrow>
     (\<exists>l \<in> set (scanned_lines root). begin_inst U l = Some i) \<and>
     (\<exists>l \<in> set (scanned_lines root). end_inst U l = Some i)"
proof -
  have "map_of (extract_inst_tags_from_code U True (Some root)) i =
          map_option (\<lambda>info. info\<lparr>complete := has_begin info \<and> has_end info\<rparr>)
            (map_of (scan_directory U [] root) i)"
    by (simp add: extract_inst_tags_from_code_def map_of_map)
  then have "(\<exists>info. map_of (extract_inst_tags_from_code U True (Some root)) i = Some info \<and> complete info) \<longleftrightarrow>
     begin_seen (scan_directory U [] root) i \<and> end_seen (scan_directory U [] root) i"
    by (auto simp: begin_seen_def end_seen_def split: option.splits)
  then show ?thesis
    by (simp add: begin_seen_scan_directory end_seen_scan_directory)
qed

lemma tree1_lines:
  "scanned_lines tree1 =
     [lit ''# fdd-end fdd-x-feature-y-flow-z:ph-1:inst-a'',
      lit ''// fdd-begin fdd-x-feature-y-flow-z:ph-2:inst-a'']"
  by (simp add: scanned_lines_def tree1_def suffix_def code_extensions_def skip_dirs_def
        split_nl_def lit_def)

lemmas ev_marker = begin_inst_def end_inst_def begin_pattern_def end_pattern_def
  marker_pattern_def group2_def

lemma tree1_begin:
  "begin_inst sample_builtins (lit ''// fdd-begin fdd-x-feature-y-flow-z:ph-2:inst-a'') =
     Some (lit ''inst-a'')"
  by (simp add: ev_marker ev)

lemma tree1_end:
  "end_inst sample_builtins (lit ''# fdd-end fdd-x-feature-y-flow-z:ph-1:inst-a'') =
     Some (lit ''inst-a'')"
  by (simp add: ev_marker ev)

text \<open>The end marker is read first, in another file than the begin marker.\<close>

theorem code_marker_complete_iff_witness:
  "scanned_lines tree1 =
     [lit ''# fdd-end fdd-x-feature-y-flow-z:ph-1:inst-a'',
      lit ''// fdd-begin fdd-x-feature-y-flow-z:ph-2:inst-a''] \<and>
   end_inst sample_builtins (lit ''# fdd-end fdd-x-feature-y-flow-z:ph-1:inst-a'') =
     Some (lit ''inst-a'') \<and>
   begin_inst sample_builtins (lit ''// fdd-begin fdd-x-feature-y-flow-z:ph-2:inst-a'') =
     Some (lit ''inst-a'') \<and>
   (\<exists>info. map_of (extract_inst_tags_from_code sample_builtins True (Some tree1)) (lit ''inst-a'')
             = Some info \<and> complete info)"
  using code_marker_complete_iff[of sample_builtins tree1 "lit ''inst-a''"]
  by (simp add: tree1_lines tree1_begin tree1_end)

section \<open>Properties of the completion reconciler\<close>

lemma rmatch_status_caps:
  "(caps, cur) \<in> set (rmatch status_pattern ([], l, r)) \<Longrightarrow>
     \<exists>e rest. caps = [e # rest] \<and> (e = 0x2705 \<or> e = 0x1F504 \<or> e = 0x23F3 \<or> e = 0x2728)"
  by (auto simp: status_pattern_def seq_def alt_def startswith_def
           split: if_splits list.splits dest!: star_steps_left)

lemma strip_keeps_head:
  assumes "\<not> isspace e"
  shows "strip (e # rest) = e # rev (dropWhile isspace (rev rest))"
  using assms by (simp add: strip_def dropWhile_append3)

lemma status_never_plain_implemented:
  assumes "re_search status_pattern changes_text = Some caps"
  shows "strip (group1 caps) \<noteq> lit ''IMPLEMENTED'' \<and> truthy (strip (group1 caps))"
proof -
  from re_search_Some[OF assms] rmatch_status_caps obtain e rest where
    caps: "caps = [e # rest]" and e: "e = 0x2705 \<or> e = 0x1F504 \<or> e = 0x23F3 \<or> e = 0x2728"
    by blast
  from e have "\<not> isspace e" by (auto simp: isspace_def)
  then have "strip (group1 caps) = e # rev (dropWhile isspace (rev rest))"
    by (simp add: caps group1_def strip_keeps_head)
  with e show ?thesis by (auto simp: lit_def truthy_def)
qed

lemma uncompleted_scope_none:
  assumes "\<forall>x \<in> set (completed data). truthy x"
  shows "length rest + i = length (completed data) \<Longrightarrow>
         uncompleted_scope scope_id data i acc rest = Inr acc"
  using assms by (induction rest arbitrary: i acc) auto

lemma uncompleted_loop_none:
  assumes "\<forall>(S, e) \<in> set design_fdl. completed e = instructions e \<and> (\<forall>i \<in> set (completed e). truthy i)"
  shows "uncompleted_loop design_fdl acc = Inr acc"
  using assms
proof (induction design_fdl arbitrary: acc)
  case Nil
  show ?case by simp
next
  case (Cons p rest)
  obtain S e where p: "p = (S, e)" by (cases p)
  with Cons.prems have e: "completed e = instructions e" "\<forall>i \<in> set (completed e). truthy i"
    by auto
  have "uncompleted_scope S e 0 acc (instructions e) = Inr acc"
    by (rule uncompleted_scope_none) (use e in auto)
  with Cons p show ?case by simp
qed

text \<open>
  Fed with what the extractor returns, the reconciler reports nothing, whatever the
  change log and the feature document say: the status it reads always starts with one
  of the four symbols, so it is never the bare word \<open>IMPLEMENTED\<close>, and every instruction
  the extractor lists is marked complete.
\<close>

lemma validate_fdl_completion_silent:
  assumes "\<forall>(S, e) \<in> set design_fdl. completed e = instructions e \<and> (\<forall>i \<in> set (completed e). truthy i)"
  shows "validate_fdl_completion changes_text design_fdl = Inr []"
proof (cases "re_search status_pattern changes_text")
  case None
  then show ?thesis by (simp add: validate_fdl_completion_def)
next
  case (Some caps)
  from status_never_plain_implemented[OF Some] uncompleted_loop_none[OF assms, of "[]"]
  show ?thesis by (simp add: validate_fdl_completion_def Some Let_def)
qed

text \<open>
  Claim C2 at two concrete inputs.  The feature document \<open>doc1\<close> declares one scope with
  two checked steps (\<open>inst-a\<close> twice) and one unchecked step (\<open>inst-b\<close>); the project tree
  holds no marker at all.  With the status \<open>IMPLEMENTED\<close> the reconciler reports nothing,
  although no checked instruction has a marker pair in code; with the status
  \<open>COMPLETED\<close> it reports nothing, although the document lists an unchecked step.
\<close>

theorem validate_fdl_completion_failing_inputs:
  "extract_fdl_instructions sample_builtins sample_constants doc1 = Inr fdl1 \<and>
   extract_inst_tags_from_code sample_builtins True (Some empty_project) = [] \<and>
   map_option (\<lambda>caps. strip (group1 caps)) (re_search status_pattern changes_implemented) =
     Some ([0x2728] @ lit '' IMPLEMENTED'') \<and>
   validate_fdl_completion changes_implemented fdl1 = Inr [] \<and>
   p_match (FDL_STEP_LINE_RE sample_constants) (lit ''2. [ ] no `inst-b`'') = Some [] \<and>
   checked_step sample_builtins sample_constants (lit ''2. [ ] no `inst-b`'') = None \<and>
   map_option (\<lambda>caps. strip (group1 caps)) (re_search status_pattern changes_completed) =
     Some ([0x2705] @ lit '' COMPLETED'') \<and>
   validate_fdl_completion changes_completed fdl1 = Inr []"
proof -
  have silent: "validate_fdl_completion changes_text fdl1 = Inr []" for changes_text
    by (rule validate_fdl_completion_silent) (simp add: fdl1_def truthy_def lit_def)
  have "extract_inst_tags_from_code sample_builtins True (Some empty_project) = []"
    by (simp add: extract_inst_tags_from_code_def empty_project_def)
  moreover have "map_option (\<lambda>caps. strip (group1 caps)) (re_search status_pattern changes_implemented) =
     Some ([0x2728] @ lit '' IMPLEMENTED'')"
    by (simp add: status_pattern_def changes_implemented_def ev)
  moreover have "map_option (\<lambda>caps. strip (group1 caps)) (re_search status_pattern changes_completed) =
     Some ([0x2705] @ lit '' COMPLETED'')"
    by (simp add: status_pattern_def changes_completed_def ev)
  moreover have "p_match (FDL_STEP_LINE_RE sample_constants) (lit ''2. [ ] no `inst-b`'') = Some []"
    by (simp add: ev)
  moreover have "checked_step sample_builtins sample_constants (lit ''2. [ ] no `inst-b`'') = None"
    by (simp add: checked_step_def ev)
  ultimately show ?thesis
    using silent doc1_extract by (simp add: fdl1_def)
qed

section \<open>Properties of the design and decision-log validators\<close>




































lemma sorted_list_of_set_single: "sorted_list_of_set {x :: str} = [x]"
  by simp









end
